theory Spec2Isabelle
  imports Complex_Main "HOL-Library.Word" "HOL-Library.Multiset"
begin

section \<open>Segment format\<close>

text \<open>
  \<open>uintptr_t\<close>, \<open>uint64_t\<close> and \<open>size_t\<close> are 64-bit words whose arithmetic wraps, as in
  the C++ of \<open>SegmentIterator.cc\<close>. A pointer is its address; \<open>NULL\<close> is address 0.
\<close>

type_synonym addr = "64 word"

abbreviation NULL :: addr where
  "NULL \<equiv> 0"

text \<open>
  Modelled from the spec: \<open>LogTypes.h\<close> is not among the sources. The entry types are the
  ones section 3 of the specification lists.
\<close>

datatype LogEntryType =
    LOG_ENTRY_TYPE_SEGHEADER
  | LOG_ENTRY_TYPE_SEGFOOTER
  | LOG_ENTRY_TYPE_OBJ
  | LOG_ENTRY_TYPE_OBJTOMB
  | LOG_ENTRY_TYPE_INVALID

text \<open>
  Modelled from the spec: \<open>Segment.h\<close> is not among the sources. Of a \<open>SegmentEntry\<close> the
  iterator reads \<open>type\<close> and \<open>length\<close>, a \<open>u32\<close> in section 6; the checksum is never
  looked at.
\<close>

record SegmentEntry =
  etype :: LogEntryType
  elength :: "32 word"

text \<open>
  Modelled from the spec: the \<open>SegmentHeader\<close> of section 6, two \<open>u64\<close>; the iterator
  reads \<open>segmentCapacity\<close>.
\<close>

record SegmentHeader =
  segmentId :: "64 word"
  hdrSegmentCapacity :: "64 word"

text \<open>
  Modelled from the spec: of a \<open>Segment\<close> the iterator calls the three getters
  \<open>getBaseAddress\<close>, \<open>getCapacity\<close> and \<open>getId\<close>.
\<close>

record Segment =
  getBaseAddress :: addr
  getCapacity :: "64 word"
  getId :: "64 word"

text \<open>
  The two \<open>sizeof\<close> constants the iterator uses come from the missing declarations, so
  they are parameters of the model.
\<close>

record layout =
  sizeof_SegmentEntry :: "64 word"
  sizeof_SegmentHeader :: "64 word"

text \<open>
  The address space as the iterator sees it through its two casts:
  \<open>entryAt m p\<close> is what \<open>(const SegmentEntry * )p\<close> points to and \<open>headerAt m p\<close> what
  \<open>(const SegmentHeader * )p\<close> points to. The iterator only reads (the buffer is
  \<open>const\<close>), so the memory is a parameter and never part of the state. A read through a
  pointer other than \<open>NULL\<close> yields whatever the address space holds there. Inside the
  buffer that is what the program reads; outside the buffer the program's read has no
  defined behaviour, and the value the model gives it stands for the case in which the
  address happens to be readable.
\<close>

record memory =
  entryAt :: "addr \<Rightarrow> SegmentEntry"
  headerAt :: "addr \<Rightarrow> SegmentHeader"

text \<open>
  The two ways in which a member function does not return: \<open>throw 0\<close> (every \<open>throw\<close> of
  the source throws the integer 0), and a read through the \<open>NULL\<close> pointer, after which
  the program has no defined behaviour.
\<close>

datatype exn = Throw int | NullDereference

abbreviation throw0 :: "exn + 'a" where
  "throw0 \<equiv> Inl (Throw 0)"

section \<open>SegmentIterator\<close>

text \<open>The data members of the class; \<open>type\<close>, \<open>length\<close> and \<open>id\<close> carry a prime.\<close>

record SegmentIterator =
  baseAddress :: addr
  segmentCapacity :: "64 word"
  id' :: "64 word"
  type' :: LogEntryType
  length' :: "64 word"
  blobPtr :: addr
  sawFooter :: bool
  firstEntry :: addr
  currentEntry :: addr

text \<open>
  \<open>SegmentIterator::isEntryValid\<close>. The initialiser of \<open>entryLastByte\<close> reads
  \<open>entry->length\<close> before either test is made: through \<open>NULL\<close> when the entry is
  \<open>NULL\<close>, and outside the buffer when the entry's header does not lie inside it
  (see \<open>entry_header_in_buffer\<close> below).
\<close>

definition isEntryValid :: "layout \<Rightarrow> memory \<Rightarrow> SegmentIterator \<Rightarrow> addr \<Rightarrow> exn + bool" where
  "isEntryValid L m it entry =
     (if entry = NULL then Inl NullDereference
      else
        let lastByte = baseAddress it + segmentCapacity it - 1;
            entryStart = entry;
            entryLastByte = entryStart + ucast (elength (entryAt m entry))
                              + sizeof_SegmentEntry L - 1
        in if entryStart < baseAddress it then throw0
           else if entryLastByte > lastByte then Inr False
           else Inr True)"

text \<open>
  \<open>SegmentIterator::CommonConstructor\<close>. The \<open>||\<close> chain is evaluated left to right, so
  \<open>isEntryValid\<close> runs only when type and length have passed; a throw inside it and a
  \<open>false\<close> from it both end in \<open>throw 0\<close>.
\<close>

definition CommonConstructor :: "layout \<Rightarrow> memory \<Rightarrow> SegmentIterator \<Rightarrow> exn + SegmentIterator" where
  "CommonConstructor L m it =
     (if segmentCapacity it < sizeof_SegmentEntry L + sizeof_SegmentHeader L then throw0
      else
        let entry = baseAddress it in
        if entry = NULL then Inl NullDereference
        else if etype (entryAt m entry) \<noteq> LOG_ENTRY_TYPE_SEGHEADER then throw0
        else if ucast (elength (entryAt m entry)) \<noteq> sizeof_SegmentHeader L then throw0
        else (case isEntryValid L m it entry of
                Inl e \<Rightarrow> Inl e
              | Inr False \<Rightarrow> throw0
              | Inr True \<Rightarrow>
                  let header = baseAddress it + sizeof_SegmentEntry L in
                  if header = NULL then Inl NullDereference
                  else if hdrSegmentCapacity (headerAt m header) \<noteq> segmentCapacity it
                    then throw0
                  else Inr (it\<lparr> type' := etype (entryAt m entry),
                                length' := ucast (elength (entryAt m entry)),
                                blobPtr := baseAddress it + sizeof_SegmentEntry L,
                                firstEntry := entry,
                                currentEntry := entry \<rparr>)))"

text \<open>\<open>SegmentIterator::SegmentIterator(const Segment *segment)\<close>.\<close>

definition SegmentIterator_of_Segment :: "layout \<Rightarrow> memory \<Rightarrow> Segment \<Rightarrow> exn + SegmentIterator" where
  "SegmentIterator_of_Segment L m seg =
     CommonConstructor L m
       \<lparr> baseAddress = getBaseAddress seg, segmentCapacity = getCapacity seg,
         id' = getId seg,
         type' = LOG_ENTRY_TYPE_INVALID, length' = 0, blobPtr = NULL,
         sawFooter = False, firstEntry = NULL, currentEntry = NULL \<rparr>"

text \<open>\<open>SegmentIterator::SegmentIterator(const void *buffer, uint64_t length)\<close>.\<close>

definition SegmentIterator_new :: "layout \<Rightarrow> memory \<Rightarrow> addr \<Rightarrow> 64 word \<Rightarrow> exn + SegmentIterator" where
  "SegmentIterator_new L m buffer len =
     CommonConstructor L m
       \<lparr> baseAddress = buffer, segmentCapacity = len, id' = - 1,
         type' = LOG_ENTRY_TYPE_INVALID, length' = 0, blobPtr = NULL,
         sawFooter = False, firstEntry = NULL, currentEntry = NULL \<rparr>"

text \<open>
  \<open>SegmentIterator::isDone\<close>. The \<open>||\<close> short-circuits: \<open>isEntryValid\<close> is called, and
  may fail, only when \<open>sawFooter\<close> is false.
\<close>

definition isDone :: "layout \<Rightarrow> memory \<Rightarrow> SegmentIterator \<Rightarrow> exn + bool" where
  "isDone L m it =
     (if sawFooter it then Inr True
      else (case isEntryValid L m it (currentEntry it) of
              Inl e \<Rightarrow> Inl e
            | Inr v \<Rightarrow> Inr (\<not> v)))"

text \<open>\<open>SegmentIterator::next\<close>.\<close>

definition next_entry :: "layout \<Rightarrow> memory \<Rightarrow> SegmentIterator \<Rightarrow> exn + SegmentIterator" where
  "next_entry L m it0 =
     (let it = it0\<lparr> type' := LOG_ENTRY_TYPE_INVALID, length' := 0, blobPtr := NULL \<rparr> in
      if currentEntry it = NULL then Inr it
      else if etype (entryAt m (currentEntry it)) = LOG_ENTRY_TYPE_SEGFOOTER
        then Inr (it\<lparr> sawFooter := True \<rparr>)
      else
        let nextEntry = currentEntry it + sizeof_SegmentEntry L
                          + ucast (elength (entryAt m (currentEntry it)));
            entry = nextEntry
        in case isEntryValid L m it entry of
             Inl e \<Rightarrow> Inl e
           | Inr False \<Rightarrow> Inr (it\<lparr> currentEntry := NULL \<rparr>)
           | Inr True \<Rightarrow>
               Inr (it\<lparr> type' := etype (entryAt m entry),
                        length' := ucast (elength (entryAt m entry)),
                        blobPtr := entry + sizeof_SegmentEntry L,
                        currentEntry := entry \<rparr>))"

text \<open>\<open>next()\<close> called \<open>n\<close> times in a row; a failure ends the run.\<close>

fun next_times :: "nat \<Rightarrow> layout \<Rightarrow> memory \<Rightarrow> SegmentIterator \<Rightarrow> exn + SegmentIterator" where
  "next_times 0 L m it = Inr it"
| "next_times (Suc n) L m it =
     (case next_entry L m it of Inl e \<Rightarrow> Inl e | Inr it' \<Rightarrow> next_times n L m it')"

text \<open>The four queries; each throws exactly when the cursor is \<open>NULL\<close>.\<close>

definition getType :: "SegmentIterator \<Rightarrow> exn + LogEntryType" where
  "getType it = (if currentEntry it = NULL then throw0 else Inr (type' it))"

definition getLength :: "SegmentIterator \<Rightarrow> exn + 64 word" where
  "getLength it = (if currentEntry it = NULL then throw0 else Inr (length' it))"

definition getPointer :: "SegmentIterator \<Rightarrow> exn + addr" where
  "getPointer it = (if currentEntry it = NULL then throw0 else Inr (blobPtr it))"

definition getOffset :: "SegmentIterator \<Rightarrow> exn + 64 word" where
  "getOffset it = (if currentEntry it = NULL then throw0 else Inr (blobPtr it - baseAddress it))"

text \<open>
  The states an iterator can be in: the one a successful construction returns, by either
  constructor, and every state a returning \<open>next()\<close> leads to from there.
\<close>

inductive reachable :: "layout \<Rightarrow> memory \<Rightarrow> SegmentIterator \<Rightarrow> bool"
  for L :: layout and m :: memory where
  constructed: "SegmentIterator_new L m buffer len = Inr it \<Longrightarrow> reachable L m it"
| constructed_of_Segment: "SegmentIterator_of_Segment L m seg = Inr it \<Longrightarrow> reachable L m it"
| stepped: "reachable L m it \<Longrightarrow> next_entry L m it = Inr it' \<Longrightarrow> reachable L m it'"

text \<open>
  The \<open>SegmentEntry\<close> that starts at \<open>entry\<close> lies inside the iterator's buffer, so that
  reading its fields is a read of the buffer.
\<close>

definition entry_header_in_buffer :: "layout \<Rightarrow> SegmentIterator \<Rightarrow> addr \<Rightarrow> bool" where
  "entry_header_in_buffer L it entry \<longleftrightarrow>
     unat (baseAddress it) \<le> unat entry \<and>
     unat entry + unat (sizeof_SegmentEntry L)
       \<le> unat (baseAddress it) + unat (segmentCapacity it)"

text \<open>
  The validity condition in the specification's words, read over the natural numbers
  (no wrap-around): the entry starts at or after the buffer start, and its last byte,
  \<open>entry_start + header_size + length - 1\<close>, is at or before the buffer's last byte.
\<close>

definition spec_entry_valid :: "layout \<Rightarrow> memory \<Rightarrow> SegmentIterator \<Rightarrow> addr \<Rightarrow> bool" where
  "spec_entry_valid L m it entry \<longleftrightarrow>
     unat (baseAddress it) \<le> unat entry \<and>
     unat entry + unat (sizeof_SegmentEntry L) + unat (elength (entryAt m entry)) - 1
       \<le> unat (baseAddress it) + unat (segmentCapacity it) - 1"

text \<open>Construction followed by \<open>n\<close> calls of \<open>next()\<close>.\<close>

definition iterate :: "layout \<Rightarrow> memory \<Rightarrow> addr \<Rightarrow> 64 word \<Rightarrow> nat \<Rightarrow> exn + SegmentIterator" where
  "iterate L m buffer len n =
     (case SegmentIterator_new L m buffer len of
        Inl e \<Rightarrow> Inl e
      | Inr it \<Rightarrow> next_times n L m it)"

text \<open>
  Four facts that hold in every reachable state: once the footer was seen, the cursor
  rests on it; in a done state the cached fields are reset; while iteration is under way
  the cached fields describe the entry under the cursor; and a cursor that is not \<open>NULL\<close>
  rests on an entry that \<open>isEntryValid\<close> accepts.
\<close>

definition footer_seen_inv :: "memory \<Rightarrow> SegmentIterator \<Rightarrow> bool" where
  "footer_seen_inv m it \<longleftrightarrow>
     (sawFooter it \<longrightarrow> currentEntry it \<noteq> NULL \<and>
        etype (entryAt m (currentEntry it)) = LOG_ENTRY_TYPE_SEGFOOTER)"

definition done_fields_inv :: "SegmentIterator \<Rightarrow> bool" where
  "done_fields_inv it \<longleftrightarrow>
     (sawFooter it \<or> currentEntry it = NULL \<longrightarrow>
        type' it = LOG_ENTRY_TYPE_INVALID \<and> length' it = 0 \<and> blobPtr it = NULL)"

definition cursor_fields_inv :: "layout \<Rightarrow> memory \<Rightarrow> SegmentIterator \<Rightarrow> bool" where
  "cursor_fields_inv L m it \<longleftrightarrow>
     (\<not> sawFooter it \<and> currentEntry it \<noteq> NULL \<longrightarrow>
        type' it = etype (entryAt m (currentEntry it)) \<and>
        length' it = ucast (elength (entryAt m (currentEntry it))) \<and>
        blobPtr it = currentEntry it + sizeof_SegmentEntry L)"

definition cursor_valid_inv :: "layout \<Rightarrow> memory \<Rightarrow> SegmentIterator \<Rightarrow> bool" where
  "cursor_valid_inv L m it \<longleftrightarrow>
     (currentEntry it \<noteq> NULL \<longrightarrow> isEntryValid L m it (currentEntry it) = Inr True)"

text \<open>
  The state \<open>next()\<close> leaves behind when the entry after the current one is invalid: the
  cached fields reset and the cursor \<open>NULL\<close>.
\<close>

definition stopped :: "SegmentIterator \<Rightarrow> SegmentIterator" where
  "stopped it = it\<lparr> type' := LOG_ENTRY_TYPE_INVALID, length' := 0, blobPtr := NULL,
                     currentEntry := NULL \<rparr>"

subsection \<open>Example segments\<close>

text \<open>
  Modelled from the spec: the layout of section 6, a 10-byte \<open>SegmentEntry\<close>
  (\<open>u8\<close>, \<open>u8\<close>, \<open>u32\<close>, \<open>u32\<close>) and a 16-byte \<open>SegmentHeader\<close> (two \<open>u64\<close>).
\<close>

definition specLayout :: layout where
  "specLayout = \<lparr> sizeof_SegmentEntry = 10, sizeof_SegmentHeader = 16 \<rparr>"

text \<open>
  A memory holding the listed entries at the listed addresses, an invalid entry of length 0
  everywhere else, and a segment header declaring capacity \<open>cap\<close>.
\<close>

definition mkMemory :: "(addr \<times> LogEntryType \<times> 32 word) list \<Rightarrow> 64 word \<Rightarrow> memory" where
  "mkMemory es cap =
     \<lparr> entryAt = (\<lambda>p. case map_of es p of
                        None \<Rightarrow> \<lparr> etype = LOG_ENTRY_TYPE_INVALID, elength = 0 \<rparr>
                      | Some (t, n) \<Rightarrow> \<lparr> etype = t, elength = n \<rparr>),
       headerAt = (\<lambda>p. \<lparr> segmentId = 1, hdrSegmentCapacity = cap \<rparr>) \<rparr>"

text \<open>A 26-byte segment at address 4096 that holds its header and nothing else.\<close>

definition headerOnly :: memory where
  "headerOnly = mkMemory [(4096, LOG_ENTRY_TYPE_SEGHEADER, 16)] 26"

definition headerOnly_start :: SegmentIterator where
  "headerOnly_start =
     \<lparr> baseAddress = 4096, segmentCapacity = 26, id' = - 1,
       type' = LOG_ENTRY_TYPE_SEGHEADER, length' = 16, blobPtr = 4106,
       sawFooter = False, firstEntry = 4096, currentEntry = 4096 \<rparr>"

definition headerOnly_end :: SegmentIterator where
  "headerOnly_end =
     \<lparr> baseAddress = 4096, segmentCapacity = 26, id' = - 1,
       type' = LOG_ENTRY_TYPE_INVALID, length' = 0, blobPtr = NULL,
       sawFooter = False, firstEntry = 4096, currentEntry = NULL \<rparr>"

text \<open>A 64-byte segment at 4096: header, an 8-byte object at 4122, the footer at 4140.\<close>

definition sealedSegment :: memory where
  "sealedSegment =
     mkMemory [(4096, LOG_ENTRY_TYPE_SEGHEADER, 16), (4122, LOG_ENTRY_TYPE_OBJ, 8),
               (4140, LOG_ENTRY_TYPE_SEGFOOTER, 4)] 64"

definition sealed_end :: SegmentIterator where
  "sealed_end =
     \<lparr> baseAddress = 4096, segmentCapacity = 64, id' = - 1,
       type' = LOG_ENTRY_TYPE_INVALID, length' = 0, blobPtr = NULL,
       sawFooter = True, firstEntry = 4096, currentEntry = 4140 \<rparr>"

text \<open>
  A 64-byte segment at 4096 whose third entry, at 4140, declares 11 bytes of payload: its
  last byte would be 4160, one past the segment's last byte 4159.
\<close>

definition overrunSegment :: memory where
  "overrunSegment =
     mkMemory [(4096, LOG_ENTRY_TYPE_SEGHEADER, 16), (4122, LOG_ENTRY_TYPE_OBJ, 8),
               (4140, LOG_ENTRY_TYPE_OBJ, 11)] 64"

definition overrun_at_object :: SegmentIterator where
  "overrun_at_object =
     \<lparr> baseAddress = 4096, segmentCapacity = 64, id' = - 1,
       type' = LOG_ENTRY_TYPE_OBJ, length' = 8, blobPtr = 4132,
       sawFooter = False, firstEntry = 4096, currentEntry = 4122 \<rparr>"

section \<open>LogCleaner\<close>

subsection \<open>Live entries and their order\<close>

text \<open>
  \<open>LogCleaner::LiveEntry\<close>: the pointer to the segment (its address), the offset and the
  cached timestamp.
\<close>

record LiveEntry =
  segment :: addr
  offset :: "32 word"
  timestamp :: "32 word"

text \<open>\<open>LogCleaner::TimestampComparer::operator()\<close>.\<close>

definition TimestampComparer :: "LiveEntry \<Rightarrow> LiveEntry \<Rightarrow> bool" where
  "TimestampComparer a b \<longleftrightarrow> timestamp a < timestamp b"

text \<open>
  \<open>std::sort\<close> of the C++ library with a comparison functor, as an insertion sort that
  looks at the elements only through the functor: \<open>before a b\<close> is the functor's answer
  for \<open>(a, b)\<close>, true when \<open>a\<close> has to go before \<open>b\<close>.
\<close>

fun insert_by :: "('a \<Rightarrow> 'a \<Rightarrow> bool) \<Rightarrow> 'a \<Rightarrow> 'a list \<Rightarrow> 'a list" where
  "insert_by before x [] = [x]"
| "insert_by before x (y # ys) = (if before x y then x # y # ys else y # insert_by before x ys)"

definition std_sort :: "('a \<Rightarrow> 'a \<Rightarrow> bool) \<Rightarrow> 'a list \<Rightarrow> 'a list" where
  "std_sort before xs = foldr (insert_by before) xs []"

text \<open>
  What \<open>std::sort\<close> guarantees of its output \<open>ys\<close> for the input \<open>xs\<close>: the same elements,
  and no element goes before one that precedes it.
\<close>

definition sorted_by :: "('a \<Rightarrow> 'a \<Rightarrow> bool) \<Rightarrow> 'a list \<Rightarrow> bool" where
  "sorted_by before ys = sorted_wrt (\<lambda>a b. \<not> before b a) ys"

text \<open>
  The live entries of scenario B as they are extracted: source X with timestamps 100 to
  102, then source Y with 200 to 202, interleaved.
\<close>

definition scenarioB :: "LiveEntry list" where
  "scenarioB =
     [\<lparr> segment = 8192, offset = 0, timestamp = 200 \<rparr>,
      \<lparr> segment = 4096, offset = 0, timestamp = 101 \<rparr>,
      \<lparr> segment = 8192, offset = 64, timestamp = 202 \<rparr>,
      \<lparr> segment = 4096, offset = 32, timestamp = 100 \<rparr>,
      \<lparr> segment = 8192, offset = 32, timestamp = 201 \<rparr>,
      \<lparr> segment = 4096, offset = 64, timestamp = 102 \<rparr>]"

subsection \<open>Cost-benefit order\<close>

text \<open>
  The data members of \<open>LogCleaner::CostBenefitComparer\<close>; the constructor captures
  \<open>now\<close> once.
\<close>

record CostBenefitComparer =
  now :: "64 word"
  version :: "64 word"

text \<open>
  Modelled from the spec: \<open>LogSegment.h\<close> is not among the sources. What section 4.6.4
  reads of a segment: the fraction \<open>u\<close> of its bytes that are live, and its creation
  timestamp.
\<close>

record SegmentStats =
  liveFraction :: real
  creationTimestamp :: "64 word"

text \<open>
  Modelled from the spec: the body of \<open>CostBenefitComparer::costBenefit\<close>
  (\<open>LogCleaner.cc\<close>) is not among the sources. Section 4.6.4:
  \<open>age = now - s.creationTimestamp\<close>, a difference of two 64-bit timestamps.
\<close>

definition age :: "CostBenefitComparer \<Rightarrow> SegmentStats \<Rightarrow> real" where
  "age c s = real (unat (now c - creationTimestamp s))"

text \<open>
  Modelled from the spec: \<open>CostBenefitComparer::costBenefit\<close> is only declared in
  \<open>LogCleaner.h\<close>. Section 4.6.4: \<open>score = ((1 - u) * age) / (1 + u)\<close>. The declaration
  returns a \<open>uint64_t\<close>; the specification speaks of no rounding, so the score is the exact
  quotient it writes.
\<close>

definition costBenefit :: "CostBenefitComparer \<Rightarrow> SegmentStats \<Rightarrow> real" where
  "costBenefit c s = ((1 - liveFraction s) * age c s) / (1 + liveFraction s)"

text \<open>
  Modelled from the spec: \<open>CostBenefitComparer::operator()\<close> is only declared in
  \<open>LogCleaner.h\<close>. Section 4.6.4: a higher score is better, so \<open>a\<close> goes before \<open>b\<close> when
  its score is the higher one.
\<close>

definition CostBenefitComparer_call ::
    "CostBenefitComparer \<Rightarrow> SegmentStats \<Rightarrow> SegmentStats \<Rightarrow> bool" where
  "CostBenefitComparer_call c a b \<longleftrightarrow> costBenefit c a > costBenefit c b"

text \<open>
  Modelled from the spec: \<open>LogCleaner::sortSegmentsByCostBenefit\<close> is only declared in
  \<open>LogCleaner.h\<close>. Stage S1: the candidates are sorted by the cost-benefit score.
\<close>

definition sortSegmentsByCostBenefit ::
    "CostBenefitComparer \<Rightarrow> SegmentStats list \<Rightarrow> SegmentStats list" where
  "sortSegmentsByCostBenefit c segments = std_sort (CostBenefitComparer_call c) segments"

text \<open>Scenario C, at time 1000: S1 (u = 0.2, age 10), S2 (u = 0.2, age 1), S3 (u = 0.8, age 100).\<close>

definition scenarioC_comparer :: CostBenefitComparer where
  "scenarioC_comparer = \<lparr> now = 1000, version = 1 \<rparr>"

definition S1 :: SegmentStats where
  "S1 = \<lparr> liveFraction = 2 / 10, creationTimestamp = 990 \<rparr>"

definition S2 :: SegmentStats where
  "S2 = \<lparr> liveFraction = 2 / 10, creationTimestamp = 999 \<rparr>"

definition S3 :: SegmentStats where
  "S3 = \<lparr> liveFraction = 8 / 10, creationTimestamp = 900 \<rparr>"

subsection \<open>relocateEntry\<close>

text \<open>A \<open>Buffer\<close> is its bytes; \<open>getTotalLength\<close> is their number, a \<open>uint32_t\<close>.\<close>

type_synonym Buffer = "8 word list"

definition getTotalLength :: "Buffer \<Rightarrow> 32 word" where
  "getTotalLength buffer = of_nat (length buffer)"

text \<open>
  Modelled from the spec: \<open>LogSegment.h\<close> is not among the sources. A survivor segment has
  a fixed capacity and holds the entries appended so far; an append succeeds when the
  entry fits in the space left, and reports out-of-space otherwise (section 4.5).
\<close>

record LogSegment =
  capacity :: nat
  appended :: "(LogEntryType \<times> Buffer) list"

text \<open>
  Modelled from the spec: the accounting \<open>bytesAppended\<close> of section 3, the bytes of the
  entries the segment holds.
\<close>

definition bytesAppended :: "LogSegment \<Rightarrow> nat" where
  "bytesAppended s = sum_list (map (\<lambda>(t, b). length b) (appended s))"

text \<open>
  Modelled from the spec: a survivor has sufficient capacity for an entry when the entry
  fits in the bytes that are left (section 4.5, scenario D).
\<close>

definition hasSpaceFor :: "LogSegment \<Rightarrow> Buffer \<Rightarrow> bool" where
  "hasSpaceFor s buffer \<longleftrightarrow> bytesAppended s + length buffer \<le> capacity s"

text \<open>
  Modelled from the spec: appending to a segment writes the entry after the ones it holds,
  or fails for lack of space and leaves the segment as it is.
\<close>

definition LogSegment_append :: "LogSegment \<Rightarrow> LogEntryType \<Rightarrow> Buffer \<Rightarrow> LogSegment option" where
  "LogSegment_append s t buffer =
     (if hasSpaceFor s buffer then Some (s\<lparr> appended := appended s @ [(t, buffer)] \<rparr>)
      else None)"

text \<open>
  Modelled from the spec: \<open>LogEntryRelocator.h\<close> is not among the sources. Section 4.5: the
  relocator is built for the survivor (a pointer that may be \<open>NULL\<close>) and the entry's
  length; \<open>append\<close> writes the entry into the survivor or reports out-of-space, which is
  also the answer when there is no survivor (comment at \<open>relocateEntry\<close>);
  \<open>failed()\<close> is true when an append was attempted and found no space. The cycles an
  append takes are an input of the model.
\<close>

record LogEntryRelocator =
  relocatorSegment :: "LogSegment option"
  maximumLength :: "32 word"
  didAppend :: bool
  outOfSpace :: bool
  appendTicks :: "64 word"

text \<open>
  Modelled from the spec: the constructor call \<open>LogEntryRelocator(survivor, length)\<close> that
  \<open>relocateEntry\<close> makes; nothing has been appended and nothing has failed yet.
\<close>

definition LogEntryRelocator_new :: "LogSegment option \<Rightarrow> 32 word \<Rightarrow> LogEntryRelocator" where
  "LogEntryRelocator_new survivor maxLen =
     \<lparr> relocatorSegment = survivor, maximumLength = maxLen,
       didAppend = False, outOfSpace = False, appendTicks = 0 \<rparr>"

text \<open>
  Modelled from the spec: \<open>append\<close> of section 4.5, success or out-of-space; without a
  survivor the relocation fails as well.
\<close>

definition LogEntryRelocator_append ::
    "64 word \<Rightarrow> LogEntryRelocator \<Rightarrow> LogEntryType \<Rightarrow> Buffer \<Rightarrow> LogEntryRelocator" where
  "LogEntryRelocator_append cycles r t buffer =
     (let r' = r\<lparr> appendTicks := appendTicks r + cycles \<rparr> in
      case relocatorSegment r' of
        None \<Rightarrow> r'\<lparr> outOfSpace := True \<rparr>
      | Some s \<Rightarrow>
          (case LogSegment_append s t buffer of
             None \<Rightarrow> r'\<lparr> outOfSpace := True \<rparr>
           | Some s' \<Rightarrow> r'\<lparr> relocatorSegment := Some s', didAppend := True \<rparr>))"

text \<open>
  Modelled from the spec: \<open>failed()\<close> of section 4.5, true when the handler attempted to
  append and the survivor had insufficient capacity.
\<close>

definition failed :: "LogEntryRelocator \<Rightarrow> bool" where
  "failed r = outOfSpace r"

text \<open>
  Modelled from the spec: \<open>getAppendTicks()\<close>, the cycles the relocator spent appending
  (the relocation-append cycles of section 4.7).
\<close>

definition getAppendTicks :: "LogEntryRelocator \<Rightarrow> 64 word" where
  "getAppendTicks r = appendTicks r"

text \<open>
  Modelled from the spec: \<open>LogEntryHandlers.h\<close> is not among the sources. Section 4.5: the
  handler either declines (the entry is dead) or appends the entry, possibly transformed,
  through the relocator. Which of the two it does is a parameter of the model.
\<close>

datatype HandlerAction = Decline | Append LogEntryType Buffer

text \<open>
  Modelled from the spec: the entry handlers, as the decision they take for the entry of
  the given type and contents.
\<close>

type_synonym LogEntryHandlers = "LogEntryType \<Rightarrow> Buffer \<Rightarrow> HandlerAction"

text \<open>
  Modelled from the spec: \<open>LogEntryHandlers::relocate(type, buffer, relocator)\<close> of
  section 4.5; it acts on the relocator only, by appending or by doing nothing.
\<close>

definition relocate ::
    "LogEntryHandlers \<Rightarrow> 64 word \<Rightarrow> LogEntryType \<Rightarrow> Buffer \<Rightarrow> LogEntryRelocator
       \<Rightarrow> LogEntryRelocator" where
  "relocate entryHandlers appendCycles t buffer relocator =
     (case entryHandlers t buffer of
        Decline \<Rightarrow> relocator
      | Append t' buffer' \<Rightarrow> LogEntryRelocator_append appendCycles relocator t' buffer')"

text \<open>
  The metrics bag \<open>T\<close> of the template: the four members \<open>relocateEntry\<close> touches, and
  whatever else the instance (\<open>InMemory\<close> or \<open>OnDisk\<close>) holds in the record's extension.
\<close>

record RelocationMetrics =
  totalRelocationCallbacks :: "64 word"
  relocationCallbackTicks :: "64 word"
  totalRelocationAppends :: "64 word"
  relocationAppendTicks :: "64 word"

text \<open>The cycles that the clock measures during one call are inputs of the model.\<close>

record Cycles =
  callbackCycles :: "64 word"
  appendCycles :: "64 word"

text \<open>
  \<open>LogCleaner::relocateEntry\<close>. The \<open>MetricCycleCounter\<close> adds the cycles of the callback
  to \<open>relocationCallbackTicks\<close> when its block ends. The result is the returned \<open>bool\<close>,
  the survivor as the call leaves it, and the metrics as the call leaves them.
\<close>

definition relocateEntry ::
    "LogEntryHandlers \<Rightarrow> Cycles \<Rightarrow> LogEntryType \<Rightarrow> Buffer \<Rightarrow> LogSegment option
       \<Rightarrow> 'a RelocationMetrics_scheme
       \<Rightarrow> bool \<times> LogSegment option \<times> 'a RelocationMetrics_scheme" where
  "relocateEntry entryHandlers cyc t buffer survivor metrics =
     (let relocator0 = LogEntryRelocator_new survivor (getTotalLength buffer);
          metrics1 = metrics\<lparr> totalRelocationCallbacks := totalRelocationCallbacks metrics + 1 \<rparr>;
          relocator = relocate entryHandlers (appendCycles cyc) t buffer relocator0;
          metrics2 = metrics1\<lparr> relocationCallbackTicks :=
                                  relocationCallbackTicks metrics1 + callbackCycles cyc \<rparr>
      in if failed relocator then (False, relocatorSegment relocator, metrics2)
         else (True, relocatorSegment relocator,
               metrics2\<lparr> totalRelocationAppends := totalRelocationAppends metrics2 + 1,
                         relocationAppendTicks :=
                           relocationAppendTicks metrics2 + getAppendTicks relocator \<rparr>))"

text \<open>
  Modelled from the spec: \<open>LogCleaner::relocateLiveEntries\<close> is only declared in
  \<open>LogCleaner.h\<close>. Stage S4, for one entry: the handler is invoked through
  \<open>relocateEntry\<close>; if the relocator failed, the current survivor (if there is one) is
  sealed, another one is acquired, and the same entry is retried. The result tells whether
  a new survivor was allocated, and gives the current survivor, the sealed survivors and
  the metrics afterwards.
\<close>

record 'm RelocationStep =
  allocatedSurvivor :: bool
  retryResult :: "bool option"
  currentSurvivor :: "LogSegment option"
  sealedSurvivors :: "LogSegment list"
  stepMetrics :: 'm

text \<open>
  Modelled from the spec: stage S4 for one entry, as described above; a fresh survivor is
  an empty segment of the full segment size.
\<close>

definition relocateLiveEntry ::
    "LogEntryHandlers \<Rightarrow> Cycles \<Rightarrow> nat \<Rightarrow> LogEntryType \<Rightarrow> Buffer \<Rightarrow> LogSegment option
       \<Rightarrow> LogSegment list \<Rightarrow> 'a RelocationMetrics_scheme
       \<Rightarrow> ('a RelocationMetrics_scheme) RelocationStep" where
  "relocateLiveEntry entryHandlers cyc segmentSize t buffer survivor sealed metrics =
     (case relocateEntry entryHandlers cyc t buffer survivor metrics of
        (True, survivor', metrics') \<Rightarrow>
          \<lparr> allocatedSurvivor = False, retryResult = None, currentSurvivor = survivor',
            sealedSurvivors = sealed, stepMetrics = metrics' \<rparr>
      | (False, survivor', metrics') \<Rightarrow>
          (let sealed' = (case survivor' of None \<Rightarrow> sealed | Some s \<Rightarrow> sealed @ [s]);
               fresh = \<lparr> capacity = segmentSize, appended = [] \<rparr>
           in case relocateEntry entryHandlers cyc t buffer (Some fresh) metrics' of
                (ok, survivor'', metrics'') \<Rightarrow>
                  \<lparr> allocatedSurvivor = True, retryResult = Some ok,
                    currentSurvivor = survivor'', sealedSurvivors = sealed',
                    stepMetrics = metrics'' \<rparr>))"

text \<open>
  Scenario D: the survivor has 200 of its 1000 bytes free, the entry has 500 bytes, and the
  handler wants to keep it.
\<close>

definition scenarioD_survivor :: LogSegment where
  "scenarioD_survivor =
     \<lparr> capacity = 1000, appended = [(LOG_ENTRY_TYPE_OBJ, replicate 800 0)] \<rparr>"

definition scenarioD_entry :: Buffer where
  "scenarioD_entry = replicate 500 1"

definition keepAll :: LogEntryHandlers where
  "keepAll t buffer = Append t buffer"

definition dropAll :: LogEntryHandlers where
  "dropAll t buffer = Decline"

definition zeroMetrics :: RelocationMetrics where
  "zeroMetrics = \<lparr> totalRelocationCallbacks = 0, relocationCallbackTicks = 0,
                   totalRelocationAppends = 0, relocationAppendTicks = 0 \<rparr>"

definition someCycles :: Cycles where
  "someCycles = \<lparr> callbackCycles = 70, appendCycles = 30 \<rparr>"


section \<open>Properties of the iterator\<close>

lemmas example_defs = specLayout_def mkMemory_def headerOnly_def sealedSegment_def
  overrunSegment_def headerOnly_end_def sealed_end_def overrun_at_object_def

lemmas iterator_defs = SegmentIterator_new_def CommonConstructor_def isEntryValid_def
  next_entry_def isDone_def Let_def iterate_def

lemmas query_defs = getType_def getLength_def getPointer_def getOffset_def

subsection \<open>Word arithmetic\<close>

lemma unat_ucast_32_64: "unat (ucast (x :: 32 word) :: 64 word) = unat x"
  by transfer simp

lemma ucast_eq_iff_unat: "(ucast (x :: 32 word) = (y :: 64 word)) \<longleftrightarrow> unat x = unat y"
  by (metis unat_ucast_32_64 word_unat_eq_iff)

lemma unat_last_byte:
  fixes a b :: "64 word"
  assumes "0 < b" "unat a + unat b \<le> 2 ^ 64"
  shows "unat (a + b - 1) = unat a + unat b - 1"
proof -
  have b: "0 < unat b" using assms(1) by (simp add: word_less_nat_alt)
  show ?thesis
  proof (cases "unat a + unat b < 2 ^ 64")
    case True
    then have s: "unat (a + b) = unat a + unat b" by (simp add: unat_plus_if')
    then have "a + b \<noteq> 0" using b by (metis add_is_0 less_numeral_extra(3) unat_0)
    then show ?thesis using s by (simp add: unat_minus_one)
  next
    case False
    then have e: "unat a + unat b = 2 ^ 64" using assms(2) by simp
    then have "unat (a + b) = 0" by (simp add: unat_plus_if')
    then have "a + b = 0" by (simp add: unat_eq_0)
    then show ?thesis using e by (simp add: unsigned_minus_1_eq_mask mask_eq_exp_minus_1)
  qed
qed

lemma unat_entry_last_byte:
  fixes entry szE :: "64 word" and len :: "32 word"
  assumes "0 < szE" "unat entry + unat szE + unat len \<le> 2 ^ 64"
  shows "unat (entry + ucast len + szE - 1) = unat entry + unat szE + unat len - 1"
proof -
  have z: "0 < unat szE" using assms(1) by (simp add: word_less_nat_alt)
  have "unat entry + unat (ucast len :: 64 word) < 2 ^ 64"
    using assms(2) z by (simp add: unat_ucast_32_64)
  then have s: "unat (entry + ucast len) = unat entry + unat len"
    by (simp add: unat_plus_if' unat_ucast_32_64)
  have "unat (entry + ucast len + szE - 1) = unat (entry + ucast len) + unat szE - 1"
    by (rule unat_last_byte) (use assms s in simp_all)
  then show ?thesis using s by simp
qed

subsection \<open>isEntryValid\<close>

lemma isEntryValid_word:
  "isEntryValid L m it entry =
     (if entry = NULL then Inl NullDereference
      else if entry < baseAddress it then throw0
      else Inr (entry + ucast (elength (entryAt m entry)) + sizeof_SegmentEntry L - 1
                  \<le> baseAddress it + segmentCapacity it - 1))"
  by (auto simp: isEntryValid_def Let_def)

lemma isEntryValid_spec:
  assumes "0 < sizeof_SegmentEntry L" "0 < segmentCapacity it"
    and "unat (baseAddress it) + unat (segmentCapacity it) \<le> 2 ^ 64"
    and "entry \<noteq> NULL"
    and "unat entry + unat (sizeof_SegmentEntry L) + unat (elength (entryAt m entry)) \<le> 2 ^ 64"
  shows "isEntryValid L m it entry =
           (if unat entry < unat (baseAddress it) then throw0
            else Inr (spec_entry_valid L m it entry))"
proof -
  have a: "unat (baseAddress it + segmentCapacity it - 1)
             = unat (baseAddress it) + unat (segmentCapacity it) - 1"
    using assms(2,3) by (rule unat_last_byte)
  have b: "unat (entry + ucast (elength (entryAt m entry)) + sizeof_SegmentEntry L - 1)
             = unat entry + unat (sizeof_SegmentEntry L) + unat (elength (entryAt m entry)) - 1"
    using assms(1,5) by (rule unat_entry_last_byte)
  show ?thesis
    unfolding isEntryValid_def Let_def spec_entry_valid_def
    using assms(4) by (simp add: word_less_nat_alt a b not_less)
qed

lemma isEntryValid_NULL: "isEntryValid L m it NULL = Inl NullDereference"
  by (simp add: isEntryValid_def)

lemma isEntryValid_True_not_NULL: "isEntryValid L m it entry = Inr v \<Longrightarrow> entry \<noteq> NULL"
  by (auto simp: isEntryValid_def)

subsection \<open>isDone\<close>

lemma isDone_True_iff:
  "isDone L m it = Inr True \<longleftrightarrow>
     sawFooter it \<or> isEntryValid L m it (currentEntry it) = Inr False"
  by (auto simp: isDone_def split: sum.splits)

lemma isDone_null_cursor:
  "\<not> sawFooter it \<Longrightarrow> currentEntry it = NULL \<Longrightarrow> isDone L m it = Inl NullDereference"
  by (simp add: isDone_def isEntryValid_NULL)

text \<open>
  Were the read through \<open>NULL\<close> to return some length, the call would still not return
  true: the start of the entry, 0, is below the start of any buffer, and that is the case
  in which \<open>isEntryValid\<close> throws.
\<close>

lemma null_cursor_below_buffer:
  "baseAddress it \<noteq> NULL \<Longrightarrow> currentEntry it = NULL \<Longrightarrow> currentEntry it < baseAddress it"
  by (simp add: word_gt_0)

text \<open>
  C1. The specification says that \<open>isDone\<close> returns true after a \<open>SEGFOOTER\<close> was seen,
  after \<open>next()\<close> met an invalid entry, and when the cursor is null. On the header-only
  segment, construction succeeds, \<open>next()\<close> finds the bytes after the header invalid and
  sets the cursor to \<open>NULL\<close>; \<open>isDone\<close> then passes that \<open>NULL\<close> to \<open>isEntryValid\<close>, which
  reads \<open>entry->length\<close> through it. So in the null-cursor state \<open>isDone\<close> fails instead of
  returning true.
\<close>

theorem isDone_fails_on_null_cursor:
  "iterate specLayout headerOnly 4096 26 (Suc 0) = Inr headerOnly_end
   \<and> currentEntry headerOnly_end = NULL
   \<and> isDone specLayout headerOnly headerOnly_end = Inl NullDereference"
  by (simp add: iterator_defs example_defs)

subsection \<open>The queries\<close>

lemma queries_throw_on_null_cursor:
  "currentEntry it = NULL \<Longrightarrow>
     getType it = throw0 \<and> getLength it = throw0 \<and> getPointer it = throw0
       \<and> getOffset it = throw0"
  by (simp add: query_defs)

text \<open>
  C2. The specification says that the four queries fail in the done state, the state after
  a \<open>SEGFOOTER\<close> included. On the sealed example segment the third \<open>next()\<close> observes the
  footer: \<open>sawFooter\<close> is set, \<open>isDone\<close> returns true, but the cursor still points at the
  footer entry, so the guard \<open>currentEntry == NULL\<close> of the queries does not fire. They
  return the values \<open>next()\<close> reset: the invalid type, length 0, a null payload pointer, and
  the offset \<open>0 - baseAddress\<close>.
\<close>

theorem queries_after_footer_do_not_throw:
  "iterate specLayout sealedSegment 4096 64 (Suc (Suc (Suc 0))) = Inr sealed_end
   \<and> isDone specLayout sealedSegment sealed_end = Inr True
   \<and> getType sealed_end = Inr LOG_ENTRY_TYPE_INVALID
   \<and> getLength sealed_end = Inr 0
   \<and> getPointer sealed_end = Inr NULL
   \<and> getOffset sealed_end = Inr (- 4096)"
  by (simp add: iterator_defs example_defs query_defs)

subsection \<open>Construction\<close>

text \<open>
  C3. For a buffer that is not at \<open>NULL\<close> and lies within the 64-bit address space,
  construction throws exactly when the buffer is shorter than
  \<open>sizeof(SegmentEntry) + sizeof(SegmentHeader)\<close>, or the first entry is not a
  \<open>SEGHEADER\<close>, or its length is not \<open>sizeof(SegmentHeader)\<close>, or it does not fit in the
  buffer, or the header's \<open>segmentCapacity\<close> is not the buffer length; otherwise it returns
  the iterator positioned on the header entry.
\<close>

theorem construction_fails_iff:
  assumes szE: "0 < sizeof_SegmentEntry L" and szH: "0 < sizeof_SegmentHeader L"
    and sizes: "unat (sizeof_SegmentEntry L) + unat (sizeof_SegmentHeader L) < 2 ^ 64"
    and nn: "buffer \<noteq> NULL"
    and buf: "unat buffer + unat len \<le> 2 ^ 64"
  shows "SegmentIterator_new L m buffer len =
     (if unat len < unat (sizeof_SegmentEntry L) + unat (sizeof_SegmentHeader L)
         \<or> etype (entryAt m buffer) \<noteq> LOG_ENTRY_TYPE_SEGHEADER
         \<or> unat (elength (entryAt m buffer)) \<noteq> unat (sizeof_SegmentHeader L)
         \<or> unat buffer + unat len
              < unat buffer + unat (sizeof_SegmentEntry L) + unat (elength (entryAt m buffer))
         \<or> hdrSegmentCapacity (headerAt m (buffer + sizeof_SegmentEntry L)) \<noteq> len
      then throw0
      else Inr \<lparr> baseAddress = buffer, segmentCapacity = len, id' = - 1,
                 type' = LOG_ENTRY_TYPE_SEGHEADER,
                 length' = sizeof_SegmentHeader L,
                 blobPtr = buffer + sizeof_SegmentEntry L,
                 sawFooter = False, firstEntry = buffer, currentEntry = buffer \<rparr>)"
proof -
  let ?it = "\<lparr> baseAddress = buffer, segmentCapacity = len, id' = - 1,
         type' = LOG_ENTRY_TYPE_INVALID, length' = 0, blobPtr = NULL,
         sawFooter = False, firstEntry = NULL, currentEntry = NULL \<rparr>"
  let ?szE = "sizeof_SegmentEntry L" and ?szH = "sizeof_SegmentHeader L"
  have sum: "unat (?szE + ?szH) = unat ?szE + unat ?szH"
    using sizes by (simp add: unat_plus_if')
  have small: "len < ?szE + ?szH \<longleftrightarrow> unat len < unat ?szE + unat ?szH"
    by (simp add: word_less_nat_alt sum)
  have zE: "0 < unat ?szE" using szE by (simp add: word_less_nat_alt)
  have zH: "0 < unat ?szH" using szH by (simp add: word_less_nat_alt)
  show ?thesis
  proof (cases "unat len < unat ?szE + unat ?szH
                  \<or> etype (entryAt m buffer) \<noteq> LOG_ENTRY_TYPE_SEGHEADER
                  \<or> unat (elength (entryAt m buffer)) \<noteq> unat ?szH")
    case True
    then show ?thesis
      using nn
      by (auto simp: SegmentIterator_new_def CommonConstructor_def small ucast_eq_iff_unat)
  next
    case False
    then have big: "unat ?szE + unat ?szH \<le> unat len"
      and ty: "etype (entryAt m buffer) = LOG_ENTRY_TYPE_SEGHEADER"
      and ln: "unat (elength (entryAt m buffer)) = unat ?szH"
      by auto
    have lnw: "ucast (elength (entryAt m buffer)) = ?szH"
      using ln by (simp add: ucast_eq_iff_unat)
    have pos: "0 < segmentCapacity ?it"
      using big zE by (simp add: word_less_nat_alt)
    have v: "isEntryValid L m ?it buffer = Inr (spec_entry_valid L m ?it buffer)"
      using isEntryValid_spec [of L ?it buffer m] szE pos buf big ln nn by simp
    have fits: "spec_entry_valid L m ?it buffer"
      using big ln by (simp add: spec_entry_valid_def)
    have "unat buffer + unat ?szE < 2 ^ 64" using big zH buf by simp
    then have "unat (buffer + ?szE) = unat buffer + unat ?szE" by (simp add: unat_plus_if')
    then have hdr: "buffer + ?szE \<noteq> NULL" using zE by (metis add_is_0 less_numeral_extra(3) unat_0)
    show ?thesis
      using big ty ln lnw v fits nn hdr
      by (simp add: SegmentIterator_new_def CommonConstructor_def small not_less Let_def)
  qed
qed

text \<open>
  The header-only segment is accepted with its true length 26; it is rejected with length
  25 (shorter than entry plus header), and the sealed segment, whose header declares 64,
  is rejected with length 26.
\<close>

theorem construction_fails_iff_witness:
  "(0::64 word) < sizeof_SegmentEntry specLayout
   \<and> (0::64 word) < sizeof_SegmentHeader specLayout
   \<and> unat (sizeof_SegmentEntry specLayout) + unat (sizeof_SegmentHeader specLayout) < 2 ^ 64
   \<and> (4096 :: 64 word) \<noteq> NULL
   \<and> unat (4096 :: 64 word) + unat (26 :: 64 word) \<le> 2 ^ 64
   \<and> SegmentIterator_new specLayout headerOnly 4096 26 =
       Inr \<lparr> baseAddress = 4096, segmentCapacity = 26, id' = - 1,
             type' = LOG_ENTRY_TYPE_SEGHEADER, length' = 16, blobPtr = 4106,
             sawFooter = False, firstEntry = 4096, currentEntry = 4096 \<rparr>
   \<and> SegmentIterator_new specLayout headerOnly 4096 25 = throw0
   \<and> SegmentIterator_new specLayout sealedSegment 4096 26 = throw0"
proof -
  have a: "(0::64 word) < sizeof_SegmentEntry specLayout"
    by (simp add: specLayout_def)
  have a': "(0::64 word) < sizeof_SegmentHeader specLayout"
    by (simp add: specLayout_def)
  have b: "unat (sizeof_SegmentEntry specLayout) + unat (sizeof_SegmentHeader specLayout) < 2 ^ 64"
    by (simp add: specLayout_def)
  have n: "(4096 :: 64 word) \<noteq> NULL" by simp
  have c: "unat (4096 :: 64 word) + unat (26 :: 64 word) \<le> 2 ^ 64" by simp
  have c': "unat (4096 :: 64 word) + unat (25 :: 64 word) \<le> 2 ^ 64" by simp
  show ?thesis
    using a a' b n c
      construction_fails_iff [OF a a' b n c, of headerOnly]
      construction_fails_iff [OF a a' b n c', of headerOnly]
      construction_fails_iff [OF a a' b n c, of sealedSegment]
    by (simp add: example_defs)
qed

subsection \<open>next\<close>

lemma next_entry_null_cursor:
  "currentEntry it = NULL \<Longrightarrow>
     next_entry L m it = Inr (it\<lparr> type' := LOG_ENTRY_TYPE_INVALID, length' := 0, blobPtr := NULL \<rparr>)"
  by (simp add: next_entry_def Let_def)

text \<open>
  Where the entry's header lies inside the buffer and nothing wraps around the address
  space, \<open>isEntryValid\<close> tests what the specification calls validity; the start below the
  buffer cannot occur there.
\<close>

lemma isEntryValid_in_buffer:
  assumes "0 < sizeof_SegmentEntry L" and "0 < segmentCapacity it"
    and "unat (baseAddress it) + unat (segmentCapacity it) + 2 ^ 32 \<le> 2 ^ 64"
    and "baseAddress it \<noteq> NULL"
    and "entry_header_in_buffer L it entry"
  shows "isEntryValid L m it entry = Inr (spec_entry_valid L m it entry)"
proof -
  have b: "0 < unat (baseAddress it)" using assms(4) by (simp add: unat_gt_0)
  have le: "unat (baseAddress it) \<le> unat entry"
    and inb: "unat entry + unat (sizeof_SegmentEntry L)
                \<le> unat (baseAddress it) + unat (segmentCapacity it)"
    using assms(5) by (simp_all add: entry_header_in_buffer_def)
  have nn: "entry \<noteq> NULL" using b le by auto
  have len: "unat (elength (entryAt m entry)) < 2 ^ 32"
    using unsigned_less [of "elength (entryAt m entry)", where 'a = nat] by simp
  have buf: "unat (baseAddress it) + unat (segmentCapacity it) \<le> 2 ^ 64"
    using assms(3) by simp
  have ext: "unat entry + unat (sizeof_SegmentEntry L) + unat (elength (entryAt m entry))
               \<le> 2 ^ 64"
    using inb len assms(3) by simp
  show ?thesis
    using isEntryValid_spec [OF assms(1,2) buf nn ext] le by simp
qed

text \<open>
  C4. The specification says that iteration terminates cleanly when the next entry is
  invalid. On the overrun segment the iterator stands on the object at 4122 and \<open>isDone\<close>
  is false; the next entry, at 4140, has its header inside the buffer and would end one
  byte past the segment, so \<open>isEntryValid\<close> answers false and \<open>next()\<close> returns normally
  with the cursor \<open>NULL\<close>, without yielding that entry. The test that ends an iteration,
  \<open>isDone\<close>, then reads \<open>entry->length\<close> through the \<open>NULL\<close> cursor and fails: the
  iteration does not terminate cleanly.
\<close>

theorem isDone_fails_after_invalid_entry:
  "iterate specLayout overrunSegment 4096 64 (Suc 0) = Inr overrun_at_object
   \<and> isDone specLayout overrunSegment overrun_at_object = Inr False
   \<and> entry_header_in_buffer specLayout overrun_at_object 4140
   \<and> isEntryValid specLayout overrunSegment overrun_at_object 4140 = Inr False
   \<and> next_entry specLayout overrunSegment overrun_at_object = Inr (stopped overrun_at_object)
   \<and> currentEntry (stopped overrun_at_object) = NULL
   \<and> isDone specLayout overrunSegment (stopped overrun_at_object) = Inl NullDereference"
  by (simp add: iterator_defs example_defs stopped_def entry_header_in_buffer_def)

text \<open>
  On a segment that is filled to its last byte the entry that \<open>next()\<close> hands to
  \<open>isEntryValid\<close> starts at the end of the buffer, so the read of its length is already a
  read outside the buffer. The header-only segment is the smallest such case: from the
  header at 4096 the next entry is at 4122, the first address after the 26 bytes.
\<close>

lemma next_entry_reads_past_full_buffer:
  "SegmentIterator_new specLayout headerOnly 4096 26 = Inr headerOnly_start
   \<and> currentEntry headerOnly_start + sizeof_SegmentEntry specLayout
       + ucast (elength (entryAt headerOnly (currentEntry headerOnly_start))) = 4122
   \<and> \<not> entry_header_in_buffer specLayout headerOnly_start 4122"
  by (simp add: iterator_defs example_defs headerOnly_start_def entry_header_in_buffer_def)

subsection \<open>Reachable states\<close>

lemma CommonConstructor_fields:
  "CommonConstructor L m it = Inr it' \<Longrightarrow>
     sawFooter it' = sawFooter it \<and> baseAddress it' = baseAddress it \<and>
     segmentCapacity it' = segmentCapacity it \<and> currentEntry it' = baseAddress it \<and>
     baseAddress it \<noteq> NULL"
  by (auto simp: CommonConstructor_def Let_def split: if_splits sum.splits bool.splits)

lemma CommonConstructor_cursor_fields:
  "CommonConstructor L m it = Inr it' \<Longrightarrow> cursor_fields_inv L m it'"
  by (auto simp: CommonConstructor_def cursor_fields_inv_def Let_def
           split: if_splits sum.splits bool.splits)

lemma next_footer_seen_inv:
  "footer_seen_inv m it \<Longrightarrow> next_entry L m it = Inr it' \<Longrightarrow> footer_seen_inv m it'"
  by (auto simp: next_entry_def footer_seen_inv_def Let_def
           split: if_splits sum.splits bool.splits)

lemma reachable_footer_seen_inv: "reachable L m it \<Longrightarrow> footer_seen_inv m it"
proof (induction rule: reachable.induct)
  case (constructed buffer len it)
  then show ?case
    by (auto simp: SegmentIterator_new_def footer_seen_inv_def dest!: CommonConstructor_fields)
next
  case (constructed_of_Segment seg it)
  then show ?case
    by (auto simp: SegmentIterator_of_Segment_def footer_seen_inv_def
             dest!: CommonConstructor_fields)
next
  case (stepped it it')
  then show ?case by (auto intro: next_footer_seen_inv)
qed

lemma next_done_fields_inv:
  "footer_seen_inv m it \<Longrightarrow> done_fields_inv it \<Longrightarrow> next_entry L m it = Inr it'
     \<Longrightarrow> done_fields_inv it'"
  by (auto simp: next_entry_def done_fields_inv_def footer_seen_inv_def Let_def
           split: if_splits sum.splits bool.splits dest: isEntryValid_True_not_NULL)

lemma reachable_done_fields_inv: "reachable L m it \<Longrightarrow> done_fields_inv it"
proof (induction rule: reachable.induct)
  case (constructed buffer len it)
  then show ?case
    by (auto simp: SegmentIterator_new_def done_fields_inv_def dest!: CommonConstructor_fields)
next
  case (constructed_of_Segment seg it)
  then show ?case
    by (auto simp: SegmentIterator_of_Segment_def done_fields_inv_def
             dest!: CommonConstructor_fields)
next
  case (stepped it it')
  then show ?case by (auto intro: next_done_fields_inv reachable_footer_seen_inv)
qed

lemma next_cursor_fields_inv:
  "cursor_fields_inv L m it \<Longrightarrow> next_entry L m it = Inr it' \<Longrightarrow> cursor_fields_inv L m it'"
  by (auto simp: next_entry_def cursor_fields_inv_def Let_def
           split: if_splits sum.splits bool.splits)

lemma reachable_cursor_fields_inv: "reachable L m it \<Longrightarrow> cursor_fields_inv L m it"
proof (induction rule: reachable.induct)
  case (constructed buffer len it)
  then show ?case
    by (auto simp: SegmentIterator_new_def intro: CommonConstructor_cursor_fields)
next
  case (constructed_of_Segment seg it)
  then show ?case
    by (auto simp: SegmentIterator_of_Segment_def intro: CommonConstructor_cursor_fields)
next
  case (stepped it it')
  then show ?case by (auto intro: next_cursor_fields_inv)
qed

lemma next_entry_done:
  assumes "footer_seen_inv m it" and "done_fields_inv it"
    and "sawFooter it \<or> currentEntry it = NULL"
  shows "next_entry L m it = Inr it"
  using assms
  by (cases it) (auto simp: next_entry_def footer_seen_inv_def done_fields_inv_def Let_def)

lemma next_times_done:
  assumes "footer_seen_inv m it" and "done_fields_inv it"
    and "sawFooter it \<or> currentEntry it = NULL"
  shows "next_times n L m it = Inr it"
proof (induction n)
  case 0
  show ?case by simp
next
  case (Suc n)
  then show ?case by (simp add: next_entry_done [OF assms])
qed

lemma next_times_reachable:
  "reachable L m it \<Longrightarrow> next_times n L m it = Inr it' \<Longrightarrow> reachable L m it'"
proof (induction n arbitrary: it)
  case 0
  then show ?case by simp
next
  case (Suc n)
  then show ?case by (auto split: sum.splits intro: reachable.stepped)
qed

lemma iterate_reachable: "iterate L m buffer len n = Inr it \<Longrightarrow> reachable L m it"
  by (auto simp: iterate_def split: sum.splits
           intro: next_times_reachable reachable.constructed)

text \<open>
  While \<open>isDone\<close> is false the four queries succeed and describe the entry under the
  cursor.
\<close>

lemma queries_while_not_done:
  assumes "reachable L m it" and "isDone L m it = Inr False"
  shows "getType it = Inr (etype (entryAt m (currentEntry it)))"
    and "getLength it = Inr (ucast (elength (entryAt m (currentEntry it))))"
    and "getPointer it = Inr (currentEntry it + sizeof_SegmentEntry L)"
    and "getOffset it = Inr (currentEntry it + sizeof_SegmentEntry L - baseAddress it)"
proof -
  have nf: "\<not> sawFooter it" using assms(2) by (auto simp: isDone_def)
  have "currentEntry it \<noteq> NULL"
    using assms(2) nf by (auto simp: isDone_def isEntryValid_NULL)
  with reachable_cursor_fields_inv [OF assms(1)] nf
  show "getType it = Inr (etype (entryAt m (currentEntry it)))"
    and "getLength it = Inr (ucast (elength (entryAt m (currentEntry it))))"
    and "getPointer it = Inr (currentEntry it + sizeof_SegmentEntry L)"
    and "getOffset it = Inr (currentEntry it + sizeof_SegmentEntry L - baseAddress it)"
    by (simp_all add: cursor_fields_inv_def query_defs)
qed

text \<open>
  What \<open>isDone\<close> does in a reachable state: a cursor that is not \<open>NULL\<close> rests on an
  entry that was found valid, so \<open>isDone\<close> returns true after the footer, fails on the
  \<open>NULL\<close> cursor, and returns false otherwise.
\<close>

lemma isEntryValid_frame:
  "baseAddress it' = baseAddress it \<Longrightarrow> segmentCapacity it' = segmentCapacity it
     \<Longrightarrow> isEntryValid L m it' entry = isEntryValid L m it entry"
  by (simp add: isEntryValid_def)

lemma CommonConstructor_cursor_valid:
  "CommonConstructor L m it = Inr it' \<Longrightarrow> cursor_valid_inv L m it'"
proof -
  assume c: "CommonConstructor L m it = Inr it'"
  then have v: "isEntryValid L m it (baseAddress it) = Inr True"
    by (auto simp: CommonConstructor_def Let_def split: if_splits sum.splits bool.splits)
  from c have f: "baseAddress it' = baseAddress it" "segmentCapacity it' = segmentCapacity it"
    "currentEntry it' = baseAddress it"
    by (auto dest: CommonConstructor_fields)
  show ?thesis
    unfolding cursor_valid_inv_def using v f by (simp add: isEntryValid_frame [OF f(1,2)])
qed

lemma next_entry_frame:
  "next_entry L m it = Inr it' \<Longrightarrow>
     baseAddress it' = baseAddress it \<and> segmentCapacity it' = segmentCapacity it"
  by (auto simp: next_entry_def Let_def split: if_splits sum.splits bool.splits)

lemma next_cursor_valid_inv:
  assumes "cursor_valid_inv L m it" and "next_entry L m it = Inr it'"
  shows "cursor_valid_inv L m it'"
proof -
  have f: "baseAddress it' = baseAddress it" "segmentCapacity it' = segmentCapacity it"
    using next_entry_frame [OF assms(2)] by simp_all
  let ?r = "it\<lparr> type' := LOG_ENTRY_TYPE_INVALID, length' := 0, blobPtr := NULL \<rparr>"
  have r: "isEntryValid L m ?r e = isEntryValid L m it e" for e
    by (rule isEntryValid_frame) simp_all
  have "isEntryValid L m it (currentEntry it') = Inr True" if "currentEntry it' \<noteq> NULL"
    using assms that
    by (auto simp: next_entry_def Let_def cursor_valid_inv_def r
             split: if_splits sum.splits bool.splits)
  then show ?thesis
    unfolding cursor_valid_inv_def by (simp add: isEntryValid_frame [OF f])
qed

lemma reachable_cursor_valid_inv: "reachable L m it \<Longrightarrow> cursor_valid_inv L m it"
proof (induction rule: reachable.induct)
  case (constructed buffer len it)
  then show ?case
    by (auto simp: SegmentIterator_new_def intro: CommonConstructor_cursor_valid)
next
  case (constructed_of_Segment seg it)
  then show ?case
    by (auto simp: SegmentIterator_of_Segment_def intro: CommonConstructor_cursor_valid)
next
  case (stepped it it')
  then show ?case by (auto intro: next_cursor_valid_inv)
qed

lemma reachable_isDone:
  assumes "reachable L m it"
  shows "isDone L m it =
           (if sawFooter it then Inr True
            else if currentEntry it = NULL then Inl NullDereference
            else Inr False)"
  using reachable_cursor_valid_inv [OF assms]
  by (simp add: isDone_def cursor_valid_inv_def isEntryValid_NULL)

text \<open>
  C9. In a reachable state in which the footer was observed or the cursor is \<open>NULL\<close>, any
  number of calls of \<open>next()\<close> returns normally and leaves the iterator exactly as it is:
  the same cursor, the same \<open>sawFooter\<close>, the cached fields at their reset values.
\<close>

theorem next_in_done_state:
  assumes "reachable L m it" and "sawFooter it \<or> currentEntry it = NULL"
  shows "next_times n L m it = Inr it
         \<and> type' it = LOG_ENTRY_TYPE_INVALID \<and> length' it = 0 \<and> blobPtr it = NULL"
proof -
  have f: "footer_seen_inv m it" using assms(1) by (rule reachable_footer_seen_inv)
  have d: "done_fields_inv it" using assms(1) by (rule reachable_done_fields_inv)
  have "next_times n L m it = Inr it" using f d assms(2) by (rule next_times_done)
  with d assms(2) show ?thesis by (simp add: done_fields_inv_def)
qed

text \<open>
  Both done states of the examples: the sealed segment after its footer, and the
  header-only segment after the invalid entry.
\<close>

theorem next_in_done_state_witness:
  "reachable specLayout sealedSegment sealed_end
   \<and> sawFooter sealed_end
   \<and> next_times 4 specLayout sealedSegment sealed_end = Inr sealed_end
   \<and> reachable specLayout headerOnly headerOnly_end
   \<and> currentEntry headerOnly_end = NULL
   \<and> next_times 4 specLayout headerOnly headerOnly_end = Inr headerOnly_end"
proof -
  have r1: "reachable specLayout sealedSegment sealed_end"
    by (rule iterate_reachable [of _ _ 4096 64 "Suc (Suc (Suc 0))"])
       (simp add: iterator_defs example_defs)
  have d1: "sawFooter sealed_end" by (simp add: sealed_end_def)
  have r2: "reachable specLayout headerOnly headerOnly_end"
    by (rule iterate_reachable [of _ _ 4096 26 "Suc 0"])
       (simp add: iterator_defs example_defs)
  have d2: "currentEntry headerOnly_end = NULL" by (simp add: headerOnly_end_def)
  from next_in_done_state [OF r1, of 4] d1
  have t1: "next_times 4 specLayout sealedSegment sealed_end = Inr sealed_end" by blast
  from next_in_done_state [OF r2, of 4] d2
  have t2: "next_times 4 specLayout headerOnly headerOnly_end = Inr headerOnly_end" by blast
  from r1 d1 t1 r2 d2 t2 show ?thesis by blast
qed

section \<open>Properties of the cleaner\<close>

lemmas cleaner_defs = relocateEntry_def relocate_def LogEntryRelocator_new_def
  LogEntryRelocator_append_def LogSegment_append_def failed_def getAppendTicks_def Let_def

subsection \<open>Sorting with a comparison functor\<close>

lemma mset_insert_by: "mset (insert_by before x ys) = add_mset x (mset ys)"
  by (induction ys) auto

lemma mset_std_sort: "mset (std_sort before xs) = mset xs"
  by (induction xs) (auto simp: std_sort_def mset_insert_by)

lemma set_insert_by: "set (insert_by before x ys) = insert x (set ys)"
  by (induction ys) auto

lemma sorted_insert_by:
  fixes key :: "'a \<Rightarrow> 'k :: linorder"
  assumes "\<And>a b. before a b \<longleftrightarrow> key a < key b"
    and "sorted (map key ys)"
  shows "sorted (map key (insert_by before x ys))"
  using assms(2)
proof (induction ys)
  case Nil
  show ?case by simp
next
  case (Cons y ys)
  show ?case
  proof (cases "before x y")
    case True
    then have "key x < key y" by (simp add: assms(1))
    with Cons.prems show ?thesis using True by (auto simp: less_imp_le) 
  next
    case False
    then have "key y \<le> key x" by (simp add: assms(1) not_less)
    with Cons show ?thesis using False by (auto simp: set_insert_by)
  qed
qed

lemma sorted_std_sort:
  fixes key :: "'a \<Rightarrow> 'k :: linorder"
  assumes "\<And>a b. before a b \<longleftrightarrow> key a < key b"
  shows "sorted (map key (std_sort before xs))"
proof (induction xs)
  case Nil
  show ?case by (simp add: std_sort_def)
next
  case (Cons x xs)
  have "std_sort before (x # xs) = insert_by before x (std_sort before xs)"
    by (simp add: std_sort_def)
  with Cons show ?case by (simp add: sorted_insert_by [OF assms])
qed

lemma sorted_by_key:
  fixes key :: "'a \<Rightarrow> 'k :: linorder"
  assumes "\<And>a b. before a b \<longleftrightarrow> key a < key b"
  shows "sorted_by before ys \<longleftrightarrow> sorted (map key ys)"
  by (simp add: sorted_by_def sorted_map assms not_less)

lemma TimestampComparer_key:
  "TimestampComparer a b \<longleftrightarrow> unat (timestamp a) < unat (timestamp b)"
  by (simp add: TimestampComparer_def word_less_nat_alt)

text \<open>
  C6. Sorting live entries with \<open>TimestampComparer\<close> keeps the entries and puts their
  cached timestamps in non-decreasing order, so that no entry comes before one with a
  strictly smaller timestamp; and every sequence that satisfies the postcondition of
  \<open>std::sort\<close> for this comparator is in that order.
\<close>

theorem timestamp_sort_ascending:
  "mset (std_sort TimestampComparer entries) = mset entries
   \<and> sorted (map (\<lambda>e. unat (timestamp e)) (std_sort TimestampComparer entries))
   \<and> (\<forall>i j. i < j \<and> j < length (std_sort TimestampComparer entries)
         \<longrightarrow> \<not> unat (timestamp (std_sort TimestampComparer entries ! j))
                 < unat (timestamp (std_sort TimestampComparer entries ! i)))
   \<and> (\<forall>ys. mset ys = mset entries \<and> sorted_by TimestampComparer ys
         \<longrightarrow> sorted (map (\<lambda>e. unat (timestamp e)) ys))"
proof -
  let ?ys = "std_sort TimestampComparer entries"
  have s: "sorted (map (\<lambda>e. unat (timestamp e)) ?ys)"
    by (rule sorted_std_sort) (rule TimestampComparer_key)
  have "\<not> unat (timestamp (?ys ! j)) < unat (timestamp (?ys ! i))"
    if "i < j" "j < length ?ys" for i j
  proof -
    have "map (\<lambda>e. unat (timestamp e)) ?ys ! i \<le> map (\<lambda>e. unat (timestamp e)) ?ys ! j"
      using s that by (intro sorted_nth_mono) auto
    then show ?thesis using that by simp
  qed
  moreover have "sorted (map (\<lambda>e. unat (timestamp e)) ys)" if "sorted_by TimestampComparer ys" for ys
    using that sorted_by_key [of TimestampComparer "\<lambda>e. unat (timestamp e)" ys]
    by (simp add: TimestampComparer_key)
  ultimately show ?thesis using s by (simp add: mset_std_sort)
qed

text \<open>Scenario B: the six entries come out in the order 100, 101, 102, 200, 201, 202.\<close>

theorem timestamp_sort_ascending_witness:
  "map timestamp (std_sort TimestampComparer scenarioB) = [100, 101, 102, 200, 201, 202]
   \<and> sorted (map (\<lambda>e. unat (timestamp e)) (std_sort TimestampComparer scenarioB))
   \<and> (2 :: nat) < 3 \<and> 3 < length (std_sort TimestampComparer scenarioB)
   \<and> \<not> unat (timestamp (std_sort TimestampComparer scenarioB ! 3))
         < unat (timestamp (std_sort TimestampComparer scenarioB ! 2))"
proof -
  have e: "map timestamp (std_sort TimestampComparer scenarioB) = [100, 101, 102, 200, 201, 202]"
    by (simp add: std_sort_def scenarioB_def TimestampComparer_def)
  have l: "(2 :: nat) < 3 \<and> 3 < length (std_sort TimestampComparer scenarioB)"
    using arg_cong [OF e, of length] by simp
  from timestamp_sort_ascending [of scenarioB] l e show ?thesis by blast
qed

subsection \<open>Cost-benefit order\<close>

lemma costBenefit_key:
  "CostBenefitComparer_call c a b \<longleftrightarrow> - costBenefit c a < - costBenefit c b"
  by (simp add: CostBenefitComparer_call_def)

text \<open>
  C5. The comparator puts \<open>a\<close> before \<open>b\<close> exactly when the score
  \<open>((1 - u) * age) / (1 + u)\<close> of \<open>a\<close> is the higher one; sorting the candidates with it
  keeps them and lists them by non-increasing score; and the three segments of scenario C
  come out as S3, S1, S2.
\<close>

theorem cost_benefit_order:
  "CostBenefitComparer_call c a b
     = (((1 - liveFraction b) * age c b) / (1 + liveFraction b)
          < ((1 - liveFraction a) * age c a) / (1 + liveFraction a))
   \<and> mset (sortSegmentsByCostBenefit c segments) = mset segments
   \<and> sorted_wrt (\<lambda>a b. costBenefit c b \<le> costBenefit c a) (sortSegmentsByCostBenefit c segments)
   \<and> liveFraction S1 = 2 / 10 \<and> age scenarioC_comparer S1 = 10
   \<and> liveFraction S2 = 2 / 10 \<and> age scenarioC_comparer S2 = 1
   \<and> liveFraction S3 = 8 / 10 \<and> age scenarioC_comparer S3 = 100
   \<and> sortSegmentsByCostBenefit scenarioC_comparer [S1, S2, S3] = [S3, S1, S2]"
proof -
  have "sorted (map (\<lambda>s. - costBenefit c s) (sortSegmentsByCostBenefit c segments))"
    unfolding sortSegmentsByCostBenefit_def by (rule sorted_std_sort) (rule costBenefit_key)
  then have 1: "sorted_wrt (\<lambda>a b. costBenefit c b \<le> costBenefit c a)
                  (sortSegmentsByCostBenefit c segments)"
    by (simp add: sorted_map)
  have 2: "sortSegmentsByCostBenefit scenarioC_comparer [S1, S2, S3] = [S3, S1, S2]"
    by (simp add: sortSegmentsByCostBenefit_def std_sort_def CostBenefitComparer_call_def
          costBenefit_def age_def scenarioC_comparer_def S1_def S2_def S3_def)
  have 3: "age scenarioC_comparer S1 = 10" "age scenarioC_comparer S2 = 1"
     "age scenarioC_comparer S3 = 100"
    by (simp_all add: age_def scenarioC_comparer_def S1_def S2_def S3_def)
  show ?thesis
    using 1 2 3
    by (simp add: CostBenefitComparer_call_def costBenefit_def sortSegmentsByCostBenefit_def
          mset_std_sort S1_def S2_def S3_def)
qed

subsection \<open>relocateEntry\<close>

lemma relocateEntry_ok:
  "fst (relocateEntry h cyc t buffer survivor metrics)
     = (case h t buffer of
          Decline \<Rightarrow> True
        | Append t' buffer' \<Rightarrow>
            (case survivor of None \<Rightarrow> False | Some s \<Rightarrow> hasSpaceFor s buffer'))"
  by (simp add: cleaner_defs split: HandlerAction.splits option.splits)

text \<open>
  C7. \<open>relocateEntry\<close> returns false exactly when the relocator reports \<open>failed()\<close> after
  the callback, which is exactly when the handler attempted an append and there was no
  survivor or the survivor had no room; it returns true otherwise, also when the handler
  declined. The cleaner allocates a new survivor and retries the entry exactly when the
  result was false.
\<close>

theorem relocateEntry_result:
  "fst (relocateEntry h cyc t buffer survivor metrics)
     = (\<not> failed (relocate h (appendCycles cyc) t buffer
                    (LogEntryRelocator_new survivor (getTotalLength buffer))))
   \<and> fst (relocateEntry h cyc t buffer survivor metrics)
     = (case h t buffer of
          Decline \<Rightarrow> True
        | Append t' buffer' \<Rightarrow>
            (case survivor of None \<Rightarrow> False | Some s \<Rightarrow> hasSpaceFor s buffer'))
   \<and> allocatedSurvivor (relocateLiveEntry h cyc segmentSize t buffer survivor sealed metrics)
     = (\<not> fst (relocateEntry h cyc t buffer survivor metrics))
   \<and> (retryResult (relocateLiveEntry h cyc segmentSize t buffer survivor sealed metrics) = None)
     = fst (relocateEntry h cyc t buffer survivor metrics)"
proof -
  have 1: "fst (relocateEntry h cyc t buffer survivor metrics)
     = (\<not> failed (relocate h (appendCycles cyc) t buffer
                    (LogEntryRelocator_new survivor (getTotalLength buffer))))"
    by (simp add: relocateEntry_def Let_def)
  have 3: "allocatedSurvivor (relocateLiveEntry h cyc segmentSize t buffer survivor sealed metrics)
     = (\<not> fst (relocateEntry h cyc t buffer survivor metrics))"
    by (simp add: relocateLiveEntry_def Let_def split: prod.splits bool.splits)
  have 4: "(retryResult (relocateLiveEntry h cyc segmentSize t buffer survivor sealed metrics) = None)
     = fst (relocateEntry h cyc t buffer survivor metrics)"
    by (simp add: relocateLiveEntry_def Let_def split: prod.splits bool.splits)
  from 1 relocateEntry_ok [of h cyc t buffer survivor metrics] 3 4 show ?thesis by blast
qed

text \<open>
  Scenario D: 200 bytes free and a 500-byte entry give false, and so does a missing
  survivor; a declining handler gives true in both cases; the cleaner allocates a fresh
  survivor only after the false result, and the retry succeeds.
\<close>

theorem relocateEntry_result_witness:
  "fst (relocateEntry keepAll someCycles LOG_ENTRY_TYPE_OBJ scenarioD_entry
          (Some scenarioD_survivor) zeroMetrics) = False
   \<and> fst (relocateEntry keepAll someCycles LOG_ENTRY_TYPE_OBJ scenarioD_entry None zeroMetrics)
       = False
   \<and> fst (relocateEntry dropAll someCycles LOG_ENTRY_TYPE_OBJ scenarioD_entry
          (Some scenarioD_survivor) zeroMetrics) = True
   \<and> fst (relocateEntry dropAll someCycles LOG_ENTRY_TYPE_OBJ scenarioD_entry None zeroMetrics)
       = True
   \<and> allocatedSurvivor (relocateLiveEntry keepAll someCycles 1000 LOG_ENTRY_TYPE_OBJ
        scenarioD_entry (Some scenarioD_survivor) [] zeroMetrics) = True
   \<and> retryResult (relocateLiveEntry keepAll someCycles 1000 LOG_ENTRY_TYPE_OBJ
        scenarioD_entry (Some scenarioD_survivor) [] zeroMetrics) = Some True
   \<and> allocatedSurvivor (relocateLiveEntry dropAll someCycles 1000 LOG_ENTRY_TYPE_OBJ
        scenarioD_entry (Some scenarioD_survivor) [] zeroMetrics) = False"
proof -
  note t1 = relocateEntry_result [of keepAll someCycles LOG_ENTRY_TYPE_OBJ scenarioD_entry
              "Some scenarioD_survivor" zeroMetrics 1000 "[]"]
  note t2 = relocateEntry_result [of keepAll someCycles LOG_ENTRY_TYPE_OBJ scenarioD_entry
              None zeroMetrics 1000 "[]"]
  note t3 = relocateEntry_result [of dropAll someCycles LOG_ENTRY_TYPE_OBJ scenarioD_entry
              "Some scenarioD_survivor" zeroMetrics 1000 "[]"]
  note t4 = relocateEntry_result [of dropAll someCycles LOG_ENTRY_TYPE_OBJ scenarioD_entry
              None zeroMetrics 1000 "[]"]
  have r: "retryResult (relocateLiveEntry keepAll someCycles 1000 LOG_ENTRY_TYPE_OBJ
        scenarioD_entry (Some scenarioD_survivor) [] zeroMetrics) = Some True"
    by (simp add: relocateLiveEntry_def cleaner_defs keepAll_def scenarioD_survivor_def
          scenarioD_entry_def hasSpaceFor_def bytesAppended_def)
  have k: "keepAll LOG_ENTRY_TYPE_OBJ scenarioD_entry = Append LOG_ENTRY_TYPE_OBJ scenarioD_entry"
    by (simp add: keepAll_def)
  have d: "dropAll LOG_ENTRY_TYPE_OBJ scenarioD_entry = Decline"
    by (simp add: dropAll_def)
  have full: "\<not> hasSpaceFor scenarioD_survivor scenarioD_entry"
    by (simp add: hasSpaceFor_def bytesAppended_def scenarioD_survivor_def scenarioD_entry_def)
  from t1 [THEN conjunct2, THEN conjunct1] have a1: "fst (relocateEntry keepAll someCycles LOG_ENTRY_TYPE_OBJ scenarioD_entry
          (Some scenarioD_survivor) zeroMetrics) = False"
    by (simp add: k full)
  from t2 [THEN conjunct2, THEN conjunct1] have a2: "fst (relocateEntry keepAll someCycles LOG_ENTRY_TYPE_OBJ scenarioD_entry
          None zeroMetrics) = False"
    by (simp add: k)
  from t3 [THEN conjunct2, THEN conjunct1] have a3: "fst (relocateEntry dropAll someCycles LOG_ENTRY_TYPE_OBJ scenarioD_entry
          (Some scenarioD_survivor) zeroMetrics) = True"
    by (simp add: d)
  from t4 [THEN conjunct2, THEN conjunct1] have a4: "fst (relocateEntry dropAll someCycles LOG_ENTRY_TYPE_OBJ scenarioD_entry
          None zeroMetrics) = True"
    by (simp add: d)
  from t1 a1 have a5: "allocatedSurvivor (relocateLiveEntry keepAll someCycles 1000
        LOG_ENTRY_TYPE_OBJ scenarioD_entry (Some scenarioD_survivor) [] zeroMetrics) = True"
    by simp
  from t3 a3 have a6: "allocatedSurvivor (relocateLiveEntry dropAll someCycles 1000
        LOG_ENTRY_TYPE_OBJ scenarioD_entry (Some scenarioD_survivor) [] zeroMetrics) = False"
    by simp
  from a1 a2 a3 a4 a5 r a6 show ?thesis by blast
qed

text \<open>
  C10. Every call of \<open>relocateEntry\<close> adds one to \<open>totalRelocationCallbacks\<close>; it adds one
  to \<open>totalRelocationAppends\<close> when it returns true and leaves it alone when it returns
  false; it adds the measured cycles to the two tick counters; and every other member of
  the metrics bag keeps its value. The counters are 64-bit, so adding one is modulo
  \<open>2 ^ 64\<close>, and it always changes the counter.
\<close>

theorem relocateEntry_metrics:
  "totalRelocationCallbacks (snd (snd (relocateEntry h cyc t buffer survivor metrics)))
     = totalRelocationCallbacks metrics + 1
   \<and> totalRelocationAppends (snd (snd (relocateEntry h cyc t buffer survivor metrics)))
     = (if fst (relocateEntry h cyc t buffer survivor metrics)
        then totalRelocationAppends metrics + 1 else totalRelocationAppends metrics)
   \<and> relocationCallbackTicks (snd (snd (relocateEntry h cyc t buffer survivor metrics)))
     = relocationCallbackTicks metrics + callbackCycles cyc
   \<and> relocationAppendTicks (snd (snd (relocateEntry h cyc t buffer survivor metrics)))
     = (if fst (relocateEntry h cyc t buffer survivor metrics)
        then relocationAppendTicks metrics
               + getAppendTicks (relocate h (appendCycles cyc) t buffer
                                   (LogEntryRelocator_new survivor (getTotalLength buffer)))
        else relocationAppendTicks metrics)
   \<and> RelocationMetrics.more (snd (snd (relocateEntry h cyc t buffer survivor metrics)))
     = RelocationMetrics.more metrics
   \<and> totalRelocationAppends metrics + 1 \<noteq> totalRelocationAppends metrics"
  by (simp add: relocateEntry_def Let_def)

text \<open>
  Scenario D again, starting from counters at zero: the failed relocation counts one
  callback and no append; a declined entry counts one callback and one append.
\<close>

theorem relocateEntry_metrics_witness:
  "totalRelocationCallbacks (snd (snd (relocateEntry keepAll someCycles LOG_ENTRY_TYPE_OBJ
      scenarioD_entry (Some scenarioD_survivor) zeroMetrics))) = 1
   \<and> totalRelocationAppends (snd (snd (relocateEntry keepAll someCycles LOG_ENTRY_TYPE_OBJ
      scenarioD_entry (Some scenarioD_survivor) zeroMetrics))) = 0
   \<and> totalRelocationCallbacks (snd (snd (relocateEntry dropAll someCycles LOG_ENTRY_TYPE_OBJ
      scenarioD_entry (Some scenarioD_survivor) zeroMetrics))) = 1
   \<and> totalRelocationAppends (snd (snd (relocateEntry dropAll someCycles LOG_ENTRY_TYPE_OBJ
      scenarioD_entry (Some scenarioD_survivor) zeroMetrics))) = 1"
proof -
  have full: "\<not> hasSpaceFor scenarioD_survivor scenarioD_entry"
    by (simp add: hasSpaceFor_def bytesAppended_def scenarioD_survivor_def scenarioD_entry_def)
  have k: "\<not> fst (relocateEntry keepAll someCycles LOG_ENTRY_TYPE_OBJ scenarioD_entry
                    (Some scenarioD_survivor) zeroMetrics)"
    by (simp add: relocateEntry_ok keepAll_def full)
  have d: "fst (relocateEntry dropAll someCycles LOG_ENTRY_TYPE_OBJ scenarioD_entry
                  (Some scenarioD_survivor) zeroMetrics)"
    by (simp add: relocateEntry_ok dropAll_def)
  have z: "totalRelocationCallbacks zeroMetrics = 0" "totalRelocationAppends zeroMetrics = 0"
    by (simp_all add: zeroMetrics_def)
  from relocateEntry_metrics [of keepAll someCycles LOG_ENTRY_TYPE_OBJ scenarioD_entry
         "Some scenarioD_survivor" zeroMetrics]
       relocateEntry_metrics [of dropAll someCycles LOG_ENTRY_TYPE_OBJ scenarioD_entry
         "Some scenarioD_survivor" zeroMetrics]
       k d z
  show ?thesis by simp
qed

end
